theory Spec2Isabelle
  imports Main "HOL-Library.Sublist"
begin

section \<open>keywrap: actions and the keymap compiler\<close>

text \<open>
  keywrap runs a command inside a pseudo-terminal and intercepts keystrokes read from the
  controlling terminal. The repository holds two variants of the program: \<^verbatim>\<open>src/main.go\<close>
  and \<^verbatim>\<open>src/unnamed/part_000\<close>. Go strings are byte sequences, modelled as \<^typ>\<open>string\<close>
  (a list of 8-bit characters); \<^verbatim>\<open>len\<close> is \<^const>\<open>length\<close>.
\<close>

subsection \<open>Action (main.go 240-251)\<close>

text \<open>
  \<^verbatim>\<open>type Action struct { Type ActionType; Arg string }\<close> where \<^verbatim>\<open>ActionType\<close> is a string
  type with three named constants. Any other string, the empty one included, is a value
  of the type as well.
\<close>

record Action =
  Type :: string
  Arg :: string

definition ActionTypeExit :: string where
  "ActionTypeExit = ''exit''"

definition ActionTypeBecome :: string where
  "ActionTypeBecome = ''become''"

definition ActionTypeExecute :: string where
  "ActionTypeExecute = ''execute''"

text \<open>The zero value of the struct, what \<^verbatim>\<open>var action Action\<close> declares.\<close>

definition zeroAction :: Action where
  "zeroAction = \<lparr>Type = [], Arg = []\<rparr>"

subsection \<open>Panics\<close>

text \<open>
  Every \<^verbatim>\<open>panic\<close> of the source and every run-time panic the modelled statements can
  raise is a value of this type; a function that can panic returns \<open>panic + 'a\<close>.
\<close>

datatype panic =
    UnknownKey string       \<comment> \<open>\<^verbatim>\<open>panic("unknown key: " + k)\<close>\<close>
  | SliceBounds int int     \<comment> \<open>run-time error: slice bounds out of range \<^verbatim>\<open>[lo:hi]\<close>\<close>
  | NilPointer              \<comment> \<open>run-time error: nil pointer dereference\<close>
  | LookPathFailed          \<comment> \<open>\<^verbatim>\<open>panic(lookErr)\<close> in execSyscall\<close>
  | ExecFailed              \<comment> \<open>\<^verbatim>\<open>panic(execErr)\<close> in execSyscall\<close>

subsection \<open>Library functions the compiler calls\<close>

text \<open>
  The slice expression \<^verbatim>\<open>v[lo:hi]\<close> on a string panics unless \<open>0 \<le> lo \<le> hi \<le> len(v)\<close>.
\<close>

definition go_slice :: "string \<Rightarrow> int \<Rightarrow> int \<Rightarrow> panic + string" where
  "go_slice v lo hi =
     (if 0 \<le> lo \<and> lo \<le> hi \<and> hi \<le> int (length v)
      then Inr (take (nat (hi - lo)) (drop (nat lo) v))
      else Inl (SliceBounds lo hi))"

text \<open>\<^verbatim>\<open>%d\<close> of \<^verbatim>\<open>fmt.Sprintf\<close> on an unsigned value: its decimal digits.\<close>

definition digit_char :: "nat \<Rightarrow> char" where
  "digit_char d = char_of (of_char (CHR ''0'') + d)"

function decimal :: "nat \<Rightarrow> string" where
  "decimal n = (if n < 10 then [digit_char n] else decimal (n div 10) @ [digit_char (n mod 10)])"
  by pat_completeness auto
termination
  by (relation "measure id") auto

declare decimal.simps [simp del]

text \<open>\<^verbatim>\<open>fmt.Sprintf("\x1b[%d;5u", code)\<close> for a byte \<open>code\<close>: the CSI-u sequence.\<close>

definition csi_u :: "char \<Rightarrow> string" where
  "csi_u code = [CHR 0x1B, CHR ''[''] @ decimal (of_char code) @ '';5u''"

subsection \<open>formatKeymap (main.go 253-291)\<close>

text \<open>
  The first half of the loop body (lines 256-271): the action of a spec string \<open>v\<close>. The
  chain of \<^verbatim>\<open>if\<close>s has no final \<^verbatim>\<open>else\<close>, so a spec that matches none of the three tests
  leaves \<^verbatim>\<open>action\<close> at its zero value. \<^verbatim>\<open>v[7 : len(v)-1]\<close> is a slice expression and
  panics when \<open>len(v) - 1 < 7\<close>.
\<close>

definition formatKeymap_action :: "string \<Rightarrow> panic + Action" where
  "formatKeymap_action v =
     (if v = ''exit'' then Inr \<lparr>Type = ActionTypeExit, Arg = []\<rparr>
      else if prefix ''become('' v then
        (case go_slice v 7 (int (length v) - 1) of
           Inl e \<Rightarrow> Inl e
         | Inr arg \<Rightarrow> Inr \<lparr>Type = ActionTypeBecome, Arg = arg\<rparr>)
      else if prefix ''execute('' v then
        (case go_slice v 8 (int (length v) - 1) of
           Inl e \<Rightarrow> Inl e
         | Inr arg \<Rightarrow> Inr \<lparr>Type = ActionTypeExecute, Arg = arg\<rparr>)
      else Inr zeroAction)"

text \<open>
  The second half (lines 273-288): the \<^verbatim>\<open>switch\<close> on the key literal \<open>k\<close>, which stores
  \<open>action\<close> in the map \<open>m\<close> under the byte sequences of the key. \<^verbatim>\<open>code\<close> is the byte
  \<^verbatim>\<open>k[5]\<close>; \<^verbatim>\<open>string(code-'a'+1)\<close> is a one-byte string, as the value is between 1 and 26.
\<close>

definition formatKeymap_key ::
    "(string \<rightharpoonup> Action) \<Rightarrow> string \<Rightarrow> Action \<Rightarrow> panic + (string \<rightharpoonup> Action)" where
  "formatKeymap_key m k action =
     (if length k = 1 then Inr (m(k \<mapsto> action))
      else if prefix ''ctrl-'' k \<and> length (drop 5 k) = 1 then
        (let code = k ! 5;
             m1 = m(csi_u code \<mapsto> action)
         in Inr (if of_char (CHR ''a'') \<le> (of_char code :: nat) \<and>
                    (of_char code :: nat) \<le> of_char (CHR ''z'')
                 then m1([char_of ((of_char code :: nat) - of_char (CHR ''a'') + 1)] \<mapsto> action)
                 else m1))
      else if k = ''enter'' then Inr (m([CHR 0x0A] \<mapsto> action))
      else if k = ''tab'' then Inr (m([CHR 0x09] \<mapsto> action))
      else Inl (UnknownKey k))"

text \<open>
  The \<^verbatim>\<open>for k, v := range keymap\<close> loop. Go leaves the iteration order of a map
  unspecified, so the input is the list of the map's bindings in the order the run visits
  them; any order of a map's bindings (a list with distinct keys) is a possible run. A
  panic ends the loop at once.
\<close>

fun formatKeymap_loop ::
    "(string \<rightharpoonup> Action) \<Rightarrow> (string \<times> string) list \<Rightarrow> panic + (string \<rightharpoonup> Action)" where
  "formatKeymap_loop m [] = Inr m"
| "formatKeymap_loop m ((k, v) # kvs) =
     (case formatKeymap_action v of
        Inl e \<Rightarrow> Inl e
      | Inr action \<Rightarrow>
          (case formatKeymap_key m k action of
             Inl e \<Rightarrow> Inl e
           | Inr m' \<Rightarrow> formatKeymap_loop m' kvs))"

definition formatKeymap :: "(string \<times> string) list \<Rightarrow> panic + (string \<rightharpoonup> Action)" where
  "formatKeymap keymap = formatKeymap_loop Map.empty keymap"

text \<open>
  The key literals the \<^verbatim>\<open>switch\<close> has a case for: the disjunction of the guards of its
  four cases; every other literal reaches \<^verbatim>\<open>default\<close>.
\<close>

definition key_literal_known :: "string \<Rightarrow> bool" where
  "key_literal_known k =
     (length k = 1 \<or> (prefix ''ctrl-'' k \<and> length (drop 5 k) = 1) \<or> k = ''enter'' \<or> k = ''tab'')"

text \<open>
  The byte sequences under which the \<^verbatim>\<open>switch\<close> stores the action of a key literal, case
  by case (lines 274-285): the literal itself for a one-byte literal; for \<^verbatim>\<open>ctrl-\<close> and one
  byte, the CSI-u sequence of that byte and, for a byte from \<^verbatim>\<open>a\<close> to \<^verbatim>\<open>z\<close>, the control
  byte; the newline for \<^verbatim>\<open>enter\<close>; the tab for \<^verbatim>\<open>tab\<close>; none for any other literal.
\<close>

definition key_sequences :: "string \<Rightarrow> string list" where
  "key_sequences k =
     (if length k = 1 then [k]
      else if prefix ''ctrl-'' k \<and> length (drop 5 k) = 1 then
        (let code = k ! 5
         in csi_u code #
            (if of_char (CHR ''a'') \<le> (of_char code :: nat) \<and>
                (of_char code :: nat) \<le> of_char (CHR ''z'')
             then [[char_of ((of_char code :: nat) - of_char (CHR ''a'') + 1)]]
             else []))
      else if k = ''enter'' then [[CHR 0x0A]]
      else if k = ''tab'' then [[CHR 0x09]]
      else [])"

subsection \<open>formatKeymap (part_000 233-271)\<close>

text \<open>
  The second variant of the program declares the same \<^verbatim>\<open>Action\<close> type and constants and
  its own \<^verbatim>\<open>formatKeymap\<close>, translated here from its own text.
\<close>

definition formatKeymap_action_part_000 :: "string \<Rightarrow> panic + Action" where
  "formatKeymap_action_part_000 v =
     (if v = ''exit'' then Inr \<lparr>Type = ActionTypeExit, Arg = []\<rparr>
      else if prefix ''become('' v then
        (case go_slice v 7 (int (length v) - 1) of
           Inl e \<Rightarrow> Inl e
         | Inr arg \<Rightarrow> Inr \<lparr>Type = ActionTypeBecome, Arg = arg\<rparr>)
      else if prefix ''execute('' v then
        (case go_slice v 8 (int (length v) - 1) of
           Inl e \<Rightarrow> Inl e
         | Inr arg \<Rightarrow> Inr \<lparr>Type = ActionTypeExecute, Arg = arg\<rparr>)
      else Inr zeroAction)"

definition formatKeymap_key_part_000 ::
    "(string \<rightharpoonup> Action) \<Rightarrow> string \<Rightarrow> Action \<Rightarrow> panic + (string \<rightharpoonup> Action)" where
  "formatKeymap_key_part_000 m k action =
     (if length k = 1 then Inr (m(k \<mapsto> action))
      else if prefix ''ctrl-'' k \<and> length (drop 5 k) = 1 then
        (let code = k ! 5;
             m1 = m(csi_u code \<mapsto> action)
         in Inr (if of_char (CHR ''a'') \<le> (of_char code :: nat) \<and>
                    (of_char code :: nat) \<le> of_char (CHR ''z'')
                 then m1([char_of ((of_char code :: nat) - of_char (CHR ''a'') + 1)] \<mapsto> action)
                 else m1))
      else if k = ''enter'' then Inr (m([CHR 0x0A] \<mapsto> action))
      else if k = ''tab'' then Inr (m([CHR 0x09] \<mapsto> action))
      else Inl (UnknownKey k))"

fun formatKeymap_loop_part_000 ::
    "(string \<rightharpoonup> Action) \<Rightarrow> (string \<times> string) list \<Rightarrow> panic + (string \<rightharpoonup> Action)" where
  "formatKeymap_loop_part_000 m [] = Inr m"
| "formatKeymap_loop_part_000 m ((k, v) # kvs) =
     (case formatKeymap_action_part_000 v of
        Inl e \<Rightarrow> Inl e
      | Inr action \<Rightarrow>
          (case formatKeymap_key_part_000 m k action of
             Inl e \<Rightarrow> Inl e
           | Inr m' \<Rightarrow> formatKeymap_loop_part_000 m' kvs))"

definition formatKeymap_part_000 ::
    "(string \<times> string) list \<Rightarrow> panic + (string \<rightharpoonup> Action)" where
  "formatKeymap_part_000 keymap = formatKeymap_loop_part_000 Map.empty keymap"

section \<open>The supervisor\<close>

text \<open>
  After the terminal has been put into raw mode, the program is a set of goroutines that
  share the variables of \<^verbatim>\<open>main\<close>: the input reader (main.go 135-161), the output copier,
  the goroutine waiting for the child, and the event loop of \<^verbatim>\<open>main\<close> itself (202-238).
  The model is an interleaving of atomic steps, one loop iteration of one goroutine each,
  on a record of everything the claims observe. The variable \<^verbatim>\<open>childExitChan\<close> is
  written by the loop and read by the reader with no synchronisation between them; in the
  model a write is visible to the next step, whichever goroutine takes it.
\<close>

subsection \<open>State\<close>

datatype signal = SIGTERM | SIGKILL

text \<open>The lines the program logs, by the statement that writes them.\<close>

datatype log_entry =
    DebugKey string Action            \<comment> \<open>\<^verbatim>\<open>log.Printf("%q %v %s\n", received, received, keymap[...])\<close>\<close>
  | CommandFinishedWithError string   \<comment> \<open>\<^verbatim>\<open>Command finished with error: %v\<close>\<close>
  | HoldNotice                        \<comment> \<open>\<^verbatim>\<open>Child process exited, but --hold option is set, ...\<close>\<close>
  | ResizeError                       \<comment> \<open>\<^verbatim>\<open>Error resizing pty: %v\<close>\<close>
  | SigtermError                      \<comment> \<open>\<^verbatim>\<open>Error sending SIGTERM to child: %v\<close>\<close>
  | KillNotice                        \<comment> \<open>\<^verbatim>\<open>Child process did not exit gracefully, sending SIGKILL\<close>\<close>
  | KillError                         \<comment> \<open>\<^verbatim>\<open>Error killing child process: %v\<close>\<close>
  | ExecuteError                      \<comment> \<open>\<^verbatim>\<open>log.Println(err)\<close> after \<^verbatim>\<open>cmd.Run()\<close>\<close>
  | FatalError                        \<comment> \<open>the line \<^verbatim>\<open>log.Fatal\<close> prints (part_000)\<close>

text \<open>
  \<^item> \<open>childExitChan_nil\<close>: the variable \<^verbatim>\<open>childExitChan\<close> is \<^verbatim>\<open>nil\<close>. The loop and
    \<^verbatim>\<open>stopChild\<close> set it to \<^verbatim>\<open>nil\<close> when they receive the child's exit; the reader tests it.
  \<^item> \<open>actionChan\<close>: the actions sent on \<^verbatim>\<open>actionChan\<close> and not yet received, oldest first.
    The channel buffers 10 values; a send on a full channel parks the sender with its
    value, which the channel takes in as soon as the loop receives one, so the values sent
    are the buffer followed by the parked one, in the order the loop will receive them.
  \<^item> \<open>ptmx_writes\<close>: the byte chunks the reader has passed to \<^verbatim>\<open>ptmx.Write\<close>, in order.
  \<^item> \<open>signals\<close>: the signals sent to the child, in order.
  \<^item> \<open>executed\<close>: the shell commands run by the Execute action (\<^verbatim>\<open>bash -c arg\<close>).
  \<^item> \<open>resizes\<close>: the number of calls of \<^verbatim>\<open>pty.InheritSize\<close>.
  \<^item> \<open>logged\<close>: the log lines written.
  \<^item> \<open>tty_raw\<close>: the controlling terminal is in raw mode.
  \<^item> \<open>ptmx_closed\<close>: the deferred \<^verbatim>\<open>ptmx.Close()\<close> has run.
\<close>

record supervisor =
  childExitChan_nil :: bool
  actionChan :: "Action list"
  ptmx_writes :: "string list"
  signals :: "signal list"
  executed :: "string list"
  resizes :: nat
  logged :: "log_entry list"
  tty_raw :: bool
  ptmx_closed :: bool

text \<open>
  The state when the goroutines start: \<^verbatim>\<open>term.MakeRaw\<close> has succeeded (main.go 116),
  the channels are empty.
\<close>

definition initial :: supervisor where
  "initial = \<lparr>childExitChan_nil = False, actionChan = [], ptmx_writes = [], signals = [],
     executed = [], resizes = 0, logged = [], tty_raw = True, ptmx_closed = False\<rparr>"

text \<open>
  \<^verbatim>\<open>ParsedFlag\<close> (main.go 18-23). In part_000 the command is split into \<^verbatim>\<open>Cmd\<close> and
  \<^verbatim>\<open>Args\<close>; after the start of the child both variants read only \<^verbatim>\<open>Keymap\<close> and \<^verbatim>\<open>Hold\<close>.
\<close>

record ParsedFlag =
  Cmd :: "string list"
  Keymap :: "(string \<times> string) list"
  Hold :: bool
  Input :: string

subsection \<open>The input reader (main.go 135-161, part_000 117-143)\<close>

text \<open>
  One iteration of the reader's \<^verbatim>\<open>for\<close> loop. \<^verbatim>\<open>tty.Read\<close> gives an error or the bytes
  \<^verbatim>\<open>buf[:n]\<close>; \<open>write_err\<close> says whether \<^verbatim>\<open>ptmx.Write\<close>, if it is called, returns an error.
  \<^verbatim>\<open>keymap[string(received)]\<close> with one result is the zero Action for a missing key.
  The two variants have the same text.
\<close>

datatype read_result = ReadError | ReadBytes string

datatype goroutine = Running | Returned

definition reader_iter ::
    "bool \<Rightarrow> (string \<rightharpoonup> Action) \<Rightarrow> read_result \<Rightarrow> bool \<Rightarrow> supervisor \<Rightarrow> goroutine \<times> supervisor" where
  "reader_iter isDebug keymap r write_err s =
     (case r of
        ReadError \<Rightarrow> (Returned, s)
      | ReadBytes received \<Rightarrow>
          if isDebug then
            (Running, s\<lparr>logged := logged s @
               [DebugKey received (case keymap received of None \<Rightarrow> zeroAction | Some a \<Rightarrow> a)]\<rparr>)
          else
            (case keymap received of
               Some action \<Rightarrow> (Running, s\<lparr>actionChan := actionChan s @ [action]\<rparr>)
             | None \<Rightarrow>
                 if childExitChan_nil s then
                   (Running, s\<lparr>actionChan := actionChan s @ [\<lparr>Type = ActionTypeExit, Arg = []\<rparr>]\<rparr>)
                 else
                   (if write_err then Returned else Running,
                    s\<lparr>ptmx_writes := ptmx_writes s @ [received]\<rparr>)))"

subsection \<open>stopChild (main.go 175-200, part_000 157-182)\<close>

text \<open>
  The \<^verbatim>\<open>select\<close> inside \<^verbatim>\<open>stopChild\<close> waits for the two-second timer or for the child's
  exit; which one comes is the environment's choice, given as the list of what each
  round of the \<^verbatim>\<open>for\<close> loop receives. A timeout carries whether \<^verbatim>\<open>child.Process.Kill()\<close>
  returns an error. The function returns the events it has not consumed; \<open>None\<close> means
  that it is still waiting when the list ends.
\<close>

datatype wait_event = Timeout bool | ExitReceived

fun stopChild_loop :: "wait_event list \<Rightarrow> supervisor \<Rightarrow> (supervisor \<times> wait_event list) option" where
  "stopChild_loop [] s = None"
| "stopChild_loop (Timeout kill_err # evs) s =
     stopChild_loop evs
       (s\<lparr>signals := signals s @ [SIGKILL],
          logged := logged s @ (KillNotice # (if kill_err then [KillError] else []))\<rparr>)"
| "stopChild_loop (ExitReceived # evs) s = Some (s\<lparr>childExitChan_nil := True\<rparr>, evs)"

definition stopChild ::
    "bool \<Rightarrow> wait_event list \<Rightarrow> supervisor \<Rightarrow> (supervisor \<times> wait_event list) option" where
  "stopChild sigterm_err evs s =
     (if childExitChan_nil s then Some (s, evs)
      else stopChild_loop evs
             (s\<lparr>signals := signals s @ [SIGTERM],
                logged := logged s @ (if sigterm_err then [SigtermError] else [])\<rparr>))"

subsection \<open>execSyscall (main.go 293-303, part_000 273-283)\<close>

text \<open>
  What the operating system answers while one action is dispatched: whether sending
  SIGTERM fails, what the \<^verbatim>\<open>select\<close> of \<^verbatim>\<open>stopChild\<close> receives, the result of
  \<^verbatim>\<open>exec.LookPath("bash")\<close> (\<open>None\<close> for an error), whether \<^verbatim>\<open>syscall.Exec\<close> returns
  (it returns only with an error) and whether \<^verbatim>\<open>cmd.Run()\<close> returns an error.
\<close>

record os_answers =
  sigterm_err :: bool
  waits :: "wait_event list"
  look_path :: "string option"
  exec_err :: bool
  run_err :: bool

text \<open>
  How one iteration of the event loop ends. \<open>Replaced argv\<close>: \<^verbatim>\<open>syscall.Exec\<close> has
  replaced the process image, nothing of this program runs any more. \<open>Fatal\<close>:
  \<^verbatim>\<open>log.Fatal\<close>, that is \<^verbatim>\<open>os.Exit(1)\<close>. \<open>Stopping\<close>: \<^verbatim>\<open>stopChild\<close> has not returned.
  \<open>NotReady\<close>: the \<^verbatim>\<open>select\<close> case cannot be chosen in this state (a receive from a
  \<^verbatim>\<open>nil\<close> channel or from an empty one).
\<close>

datatype outcome =
    Continue supervisor
  | Return supervisor
  | ReturnCode nat supervisor
  | Panic panic supervisor
  | Replaced "string list" supervisor
  | Fatal supervisor
  | Stopping
  | NotReady

definition execSyscall :: "string option \<Rightarrow> bool \<Rightarrow> string list \<Rightarrow> supervisor \<Rightarrow> outcome" where
  "execSyscall look execErr args s =
     (case look of
        None \<Rightarrow> Panic LookPathFailed s
      | Some binary \<Rightarrow> if execErr then Panic ExecFailed s else Replaced (binary # args) s)"

definition execSyscall_part_000 ::
    "string option \<Rightarrow> bool \<Rightarrow> string list \<Rightarrow> supervisor \<Rightarrow> outcome" where
  "execSyscall_part_000 look execErr args s =
     (case look of
        None \<Rightarrow> Fatal (s\<lparr>logged := logged s @ [FatalError]\<rparr>)
      | Some binary \<Rightarrow>
          if execErr then Fatal (s\<lparr>logged := logged s @ [FatalError]\<rparr>)
          else Replaced (binary # args) s)"

subsection \<open>The event loop (main.go 202-238)\<close>

text \<open>
  \<^verbatim>\<open>strings.ReplaceAll(s, old, new)\<close> for a non-empty \<open>old\<close>, the only use the program
  makes of it: the non-overlapping occurrences of \<open>old\<close>, from the left, become \<open>new\<close>.
\<close>

function ReplaceAll :: "string \<Rightarrow> string \<Rightarrow> string \<Rightarrow> string" where
  "ReplaceAll s old new =
     (if s = [] \<or> old = [] then s
      else if prefix old s then new @ ReplaceAll (drop (length old) s) old new
      else hd s # ReplaceAll (tl s) old new)"
  by pat_completeness auto
termination
  by (relation "measure (\<lambda>(s, old, new). length s)") auto

declare ReplaceAll.simps [simp del]

text \<open>
  The \<^verbatim>\<open>switch action.Type\<close> of the loop (lines 219-235). \<open>stdinFile\<close> is the name of the
  temporary file holding the piped standard input, \<open>None\<close> when \<^verbatim>\<open>collectStdinToFile\<close>
  returned \<^verbatim>\<open>nil\<close> (standard input is a terminal); \<^verbatim>\<open>stdinFile.Name()\<close> dereferences the
  pointer. An action whose type is none of the three constants matches no case.
\<close>

definition dispatch :: "string option \<Rightarrow> os_answers \<Rightarrow> Action \<Rightarrow> supervisor \<Rightarrow> outcome" where
  "dispatch stdinFile os action s =
     (if Type action = ActionTypeExit then
        (case stopChild (sigterm_err os) (waits os) s of
           None \<Rightarrow> Stopping
         | Some (s', _) \<Rightarrow> Return s')
      else if Type action = ActionTypeBecome then
        (case stopChild (sigterm_err os) (waits os) s of
           None \<Rightarrow> Stopping
         | Some (s', _) \<Rightarrow>
             (case stdinFile of
                None \<Rightarrow> Panic NilPointer s'
              | Some name \<Rightarrow>
                  execSyscall (look_path os) (exec_err os)
                    [''-c'', ReplaceAll (Arg action) ''__stdin_file__'' name] s'))
      else if Type action = ActionTypeExecute then
        (case stdinFile of
           None \<Rightarrow> Panic NilPointer s
         | Some name \<Rightarrow>
             Continue (s\<lparr>executed := executed s @ [ReplaceAll (Arg action) ''__stdin_file__'' name],
                         logged := logged s @ (if run_err os then [ExecuteError] else [])\<rparr>))
      else Continue s)"

text \<open>
  The events the \<^verbatim>\<open>select\<close> of the loop chooses from: the child's exit with the error of
  \<^verbatim>\<open>child.Wait()\<close> (\<open>None\<close> for \<^verbatim>\<open>nil\<close>, a clean exit), a window-size signal with whether
  \<^verbatim>\<open>pty.InheritSize\<close> fails, and an action received from \<^verbatim>\<open>actionChan\<close>.
\<close>

datatype event = ChildExit "string option" | SigWinch bool | ActionRecv os_answers

definition main_iter :: "ParsedFlag \<Rightarrow> string option \<Rightarrow> event \<Rightarrow> supervisor \<Rightarrow> outcome" where
  "main_iter flag stdinFile ev s =
     (case ev of
        ChildExit err \<Rightarrow>
          if childExitChan_nil s then NotReady
          else
            (let s1 = s\<lparr>childExitChan_nil := True,
                        logged := logged s @
                          (case err of None \<Rightarrow> [] | Some e \<Rightarrow> [CommandFinishedWithError e])\<rparr>
             in if \<not> Hold flag then Return s1
                else Continue (s1\<lparr>logged := logged s1 @ [HoldNotice]\<rparr>))
      | SigWinch resize_err \<Rightarrow>
          Continue (s\<lparr>resizes := resizes s + 1,
                      logged := logged s @ (if resize_err then [ResizeError] else [])\<rparr>)
      | ActionRecv os \<Rightarrow>
          (case actionChan s of
             [] \<Rightarrow> NotReady
           | action # rest \<Rightarrow> dispatch stdinFile os action (s\<lparr>actionChan := rest\<rparr>)))"

subsection \<open>The event loop of the second variant (part_000 184-218)\<close>

text \<open>
  \<^verbatim>\<open>mainWithReturn\<close> returns the exit code, has no \<^verbatim>\<open>stdinFile\<close> and passes \<^verbatim>\<open>action.Arg\<close>
  to the shell as it is.
\<close>

definition dispatch_part_000 :: "os_answers \<Rightarrow> Action \<Rightarrow> supervisor \<Rightarrow> outcome" where
  "dispatch_part_000 os action s =
     (if Type action = ActionTypeExit then
        (case stopChild (sigterm_err os) (waits os) s of
           None \<Rightarrow> Stopping
         | Some (s', _) \<Rightarrow> ReturnCode 0 s')
      else if Type action = ActionTypeBecome then
        (case stopChild (sigterm_err os) (waits os) s of
           None \<Rightarrow> Stopping
         | Some (s', _) \<Rightarrow>
             execSyscall_part_000 (look_path os) (exec_err os) [''-c'', Arg action] s')
      else if Type action = ActionTypeExecute then
        Continue (s\<lparr>executed := executed s @ [Arg action],
                    logged := logged s @ (if run_err os then [ExecuteError] else [])\<rparr>)
      else Continue s)"

definition mainWithReturn_iter :: "ParsedFlag \<Rightarrow> event \<Rightarrow> supervisor \<Rightarrow> outcome" where
  "mainWithReturn_iter flag ev s =
     (case ev of
        ChildExit err \<Rightarrow>
          if childExitChan_nil s then NotReady
          else
            (let s1 = s\<lparr>childExitChan_nil := True,
                        logged := logged s @
                          (case err of None \<Rightarrow> [] | Some e \<Rightarrow> [CommandFinishedWithError e])\<rparr>
             in if \<not> Hold flag then ReturnCode 0 s1
                else Continue (s1\<lparr>logged := logged s1 @ [HoldNotice]\<rparr>))
      | SigWinch resize_err \<Rightarrow>
          Continue (s\<lparr>resizes := resizes s + 1,
                      logged := logged s @ (if resize_err then [ResizeError] else [])\<rparr>)
      | ActionRecv os \<Rightarrow>
          (case actionChan s of
             [] \<Rightarrow> NotReady
           | action # rest \<Rightarrow> dispatch_part_000 os action (s\<lparr>actionChan := rest\<rparr>)))"

subsection \<open>How the process ends\<close>

text \<open>
  \<^verbatim>\<open>main\<close> defers \<^verbatim>\<open>term.Restore\<close> (line 120), \<^verbatim>\<open>ptmx.Close\<close> (line 113) and, for piped
  input, \<^verbatim>\<open>stdinFile.Close\<close> (line 108). Go runs the deferred calls of a function when it
  returns and when the goroutine that runs it panics. It does not run them when
  \<^verbatim>\<open>syscall.Exec\<close> replaces the process, when \<^verbatim>\<open>os.Exit\<close> is called, or when another
  goroutine panics. A program whose \<^verbatim>\<open>main\<close> returns exits with status 0; one that dies
  of a panic exits with status 2. In part_000, \<^verbatim>\<open>main\<close> calls \<^verbatim>\<open>os.Exit(code)\<close> for a
  code other than 0 after \<^verbatim>\<open>mainWithReturn\<close>, which holds the deferred calls, has returned.
\<close>

datatype ending =
    Exited nat supervisor       \<comment> \<open>the exit status and the last state\<close>
  | Exec "string list" supervisor  \<comment> \<open>the process image was replaced, with these arguments\<close>

definition deferred :: "supervisor \<Rightarrow> supervisor" where
  "deferred s = s\<lparr>tty_raw := False, ptmx_closed := True\<rparr>"

text \<open>
  A run is a list of steps: the reader goroutine runs one iteration on what it has read,
  or the loop runs one iteration on an event. A reader that has returned, or that is
  parked in a send on the full channel (more than 10 actions sent and not received),
  takes no step; an event that is not ready does not happen. \<open>None\<close>: the program is
  still running when the list ends.
\<close>

datatype step = TtyRead read_result bool | Select event

fun supervise ::
    "(event \<Rightarrow> supervisor \<Rightarrow> outcome) \<Rightarrow> bool \<Rightarrow> (string \<rightharpoonup> Action) \<Rightarrow> step list \<Rightarrow>
     goroutine \<Rightarrow> supervisor \<Rightarrow> ending option" where
  "supervise iter isDebug keymap [] rd s = None"
| "supervise iter isDebug keymap (TtyRead r write_err # steps) rd s =
     (if rd = Running \<and> length (actionChan s) \<le> 10 then
        supervise iter isDebug keymap steps
          (fst (reader_iter isDebug keymap r write_err s))
          (snd (reader_iter isDebug keymap r write_err s))
      else supervise iter isDebug keymap steps rd s)"
| "supervise iter isDebug keymap (Select ev # steps) rd s =
     (case iter ev s of
        Continue s' \<Rightarrow> supervise iter isDebug keymap steps rd s'
      | Return s' \<Rightarrow> Some (Exited 0 (deferred s'))
      | ReturnCode n s' \<Rightarrow> Some (Exited n (deferred s'))
      | Panic p s' \<Rightarrow> Some (Exited 2 (deferred s'))
      | Replaced argv s' \<Rightarrow> Some (Exec argv s')
      | Fatal s' \<Rightarrow> Some (Exited 1 s')
      | Stopping \<Rightarrow> None
      | NotReady \<Rightarrow> supervise iter isDebug keymap steps rd s)"

text \<open>
  The program from the moment raw mode is entered. The reader goroutine compiles the
  keymap first (main.go 137, part_000 119): a panic of \<^verbatim>\<open>formatKeymap\<close> happens in that
  goroutine, after \<^verbatim>\<open>term.MakeRaw\<close>.
\<close>

definition main_from_raw ::
    "ParsedFlag \<Rightarrow> bool \<Rightarrow> string option \<Rightarrow> step list \<Rightarrow> ending option" where
  "main_from_raw flag isDebug stdinFile steps =
     (case formatKeymap (Keymap flag) of
        Inl p \<Rightarrow> Some (Exited 2 initial)
      | Inr keymap \<Rightarrow> supervise (main_iter flag stdinFile) isDebug keymap steps Running initial)"

definition mainWithReturn_from_raw :: "ParsedFlag \<Rightarrow> bool \<Rightarrow> step list \<Rightarrow> ending option" where
  "mainWithReturn_from_raw flag isDebug steps =
     (case formatKeymap_part_000 (Keymap flag) of
        Inl p \<Rightarrow> Some (Exited 2 initial)
      | Inr keymap \<Rightarrow> supervise (mainWithReturn_iter flag) isDebug keymap steps Running initial)"

section \<open>Evaluation lemmas\<close>

lemmas char_eval = char_of_def bit_Suc_0_iff

lemma digit_char_eval:
  "digit_char 0 = CHR ''0''" "digit_char 1 = CHR ''1''" "digit_char 2 = CHR ''2''"
  "digit_char 3 = CHR ''3''" "digit_char 4 = CHR ''4''" "digit_char 5 = CHR ''5''"
  "digit_char 6 = CHR ''6''" "digit_char 7 = CHR ''7''" "digit_char 8 = CHR ''8''"
  "digit_char 9 = CHR ''9''"
  by (simp_all add: digit_char_def char_eval)

lemma csi_u_a: "csi_u (CHR ''a'') = CHR 0x1B # ''[97;5u''"
  by (simp add: csi_u_def decimal.simps digit_char_eval)

lemma formatKeymap_key_ctrl_a:
  "formatKeymap_key m ''ctrl-a'' a = Inr (m(CHR 0x1B # ''[97;5u'' \<mapsto> a, [CHR 0x01] \<mapsto> a))"
  by (simp add: formatKeymap_key_def Let_def csi_u_a char_eval)

lemma csi_u_j: "csi_u (CHR ''j'') = CHR 0x1B # ''[106;5u''"
  by (simp add: csi_u_def decimal.simps digit_char_def char_eval)

lemma key_sequences_eval:
  "key_sequences ''ctrl-a'' = [CHR 0x1B # ''[97;5u'', [CHR 0x01]]"
  "key_sequences ''x'' = [''x'']"
  "key_sequences ''enter'' = [[CHR 0x0A]]"
  "key_sequences ''tab'' = [[CHR 0x09]]"
  "key_sequences ''ctrl-j'' = [CHR 0x1B # ''[106;5u'', [CHR 0x0A]]"
  "key_sequences ''foo'' = []"
  by (simp_all add: key_sequences_def Let_def csi_u_a csi_u_j char_eval)

lemma ReplaceAll_true: "ReplaceAll ''true'' ''__stdin_file__'' name = ''true''"
  by (simp add: ReplaceAll.simps)

section \<open>The keymap compiler, one binding at a time\<close>

lemma formatKeymap_single:
  "formatKeymap_action v = Inr a \<Longrightarrow> formatKeymap [(k, v)] = formatKeymap_key Map.empty k a"
  by (simp add: formatKeymap_def split: sum.splits)

text \<open>A spec that passes none of the three tests leaves the action at its zero value.\<close>

lemma formatKeymap_action_unknown:
  assumes "v \<noteq> ''exit''" and "\<not> prefix ''become('' v" and "\<not> prefix ''execute('' v"
  shows "formatKeymap_action v = Inr zeroAction"
  using assms by (simp add: formatKeymap_action_def)

text \<open>
  The only specs on which the first half of the loop body panics are the two prefixes
  with nothing behind them: the slice \<^verbatim>\<open>v[7:6]\<close> or \<^verbatim>\<open>v[8:7]\<close> is out of range.
\<close>

lemma formatKeymap_action_panic:
  assumes "formatKeymap_action v = Inl e"
  shows "(v = ''become('' \<and> e = SliceBounds 7 6) \<or> (v = ''execute('' \<and> e = SliceBounds 8 7)"
proof -
  have b: "length v = 7 \<Longrightarrow> prefix ''become('' v \<Longrightarrow> v = ''become(''" for v :: string
    by (auto simp: prefix_def)
  have x: "length v = 8 \<Longrightarrow> prefix ''execute('' v \<Longrightarrow> v = ''execute(''" for v :: string
    by (auto simp: prefix_def)
  have l7: "prefix ''become('' v \<Longrightarrow> 7 \<le> length v"
    using prefix_length_le by fastforce
  have l8: "prefix ''execute('' v \<Longrightarrow> 8 \<le> length v"
    using prefix_length_le by fastforce
  show ?thesis
  proof (cases "prefix ''become('' v")
    case True
    with assms l7 have "length v = 7" "e = SliceBounds 7 6"
      by (auto simp: formatKeymap_action_def go_slice_def split: if_splits)
    with True b show ?thesis by simp
  next
    case False
    with assms have p: "prefix ''execute('' v"
      by (auto simp: formatKeymap_action_def split: if_splits)
    with False assms l8 have "length v = 8" "e = SliceBounds 8 7"
      by (auto simp: formatKeymap_action_def go_slice_def split: if_splits)
    with p x show ?thesis by simp
  qed
qed

text \<open>
  A spec with one of the two prefixes and at least one more character is accepted
  whatever that last character is: it is dropped unchecked.
\<close>

lemma formatKeymap_action_become:
  assumes "prefix ''become('' v" and "v \<noteq> ''become(''"
  shows "formatKeymap_action v = Inr \<lparr>Type = ActionTypeBecome, Arg = butlast (drop 7 v)\<rparr>"
proof -
  from assms obtain r where v: "v = ''become('' @ r" and r: "r \<noteq> []"
    by (auto simp: prefix_def)
  have "take (length r - Suc 0) r = butlast r"
    by (simp add: butlast_conv_take)
  moreover from r have "Suc 0 \<le> length r"
    by (cases r) simp_all
  ultimately show ?thesis
    using v by (simp add: formatKeymap_action_def go_slice_def nat_diff_distrib')
qed

lemma formatKeymap_action_execute:
  assumes "prefix ''execute('' v" and "v \<noteq> ''execute(''"
  shows "formatKeymap_action v = Inr \<lparr>Type = ActionTypeExecute, Arg = butlast (drop 8 v)\<rparr>"
proof -
  from assms obtain r where v: "v = ''execute('' @ r" and r: "r \<noteq> []"
    by (auto simp: prefix_def)
  have "take (length r - Suc 0) r = butlast r"
    by (simp add: butlast_conv_take)
  moreover from r have "Suc 0 \<le> length r"
    by (cases r) simp_all
  ultimately show ?thesis
    using v by (simp add: formatKeymap_action_def go_slice_def nat_diff_distrib')
qed

text \<open>
  Inside a larger keymap, the loop handles a binding with such a spec as one bound to the
  zero-valued Action, whatever map it has built so far.
\<close>

lemma formatKeymap_loop_unknown_spec:
  assumes "v \<noteq> ''exit''" and "\<not> prefix ''become('' v" and "\<not> prefix ''execute('' v"
  shows "formatKeymap_loop m ((k, v) # kvs)
           = (case formatKeymap_key m k zeroAction of
                Inl e \<Rightarrow> Inl e
              | Inr m' \<Rightarrow> formatKeymap_loop m' kvs)"
  using formatKeymap_action_unknown [OF assms] by simp

text \<open>The \<^verbatim>\<open>switch\<close> stores the action for a known key literal and panics for any other.\<close>

lemma formatKeymap_key_known:
  assumes "key_literal_known k"
  shows "\<exists>m'. formatKeymap_key Map.empty k a = Inr m' \<and> dom m' \<noteq> {}
            \<and> (\<forall>seq\<in>dom m'. m' seq = Some a)"
  using assms
  by (auto simp: formatKeymap_key_def key_literal_known_def Let_def split: if_splits)

lemma formatKeymap_key_unknown:
  assumes "\<not> key_literal_known k"
  shows "formatKeymap_key m k a = Inl (UnknownKey k)"
  using assms by (auto simp: formatKeymap_key_def key_literal_known_def)

lemma formatKeymap_key_panic:
  assumes "formatKeymap_key m k a = Inl e"
  shows "e = UnknownKey k \<and> \<not> key_literal_known k"
  using assms
  by (auto simp: formatKeymap_key_def key_literal_known_def Let_def split: if_splits)

text \<open>Every panic of the loop comes from one binding of the input.\<close>

lemma formatKeymap_loop_panic:
  assumes "formatKeymap_loop m kvs = Inl e"
  shows "(\<exists>k v. (k, v) \<in> set kvs \<and> \<not> key_literal_known k \<and> e = UnknownKey k)
         \<or> (\<exists>k. (k, ''become('') \<in> set kvs \<and> e = SliceBounds 7 6)
         \<or> (\<exists>k. (k, ''execute('') \<in> set kvs \<and> e = SliceBounds 8 7)"
  using assms
proof (induction m kvs rule: formatKeymap_loop.induct)
  case (1 m)
  then show ?case by simp
next
  case (2 m k v kvs)
  show ?case
  proof (cases "formatKeymap_action v")
    case (Inl e')
    with "2.prems" have "e' = e" by simp
    with Inl formatKeymap_action_panic [of v e] show ?thesis by auto
  next
    case (Inr a)
    note a = this
    show ?thesis
    proof (cases "formatKeymap_key m k a")
      case (Inl e')
      with a "2.prems" have "e' = e" by simp
      with Inl formatKeymap_key_panic [of m k a e] show ?thesis by auto
    next
      case (Inr m')
      with a "2.prems" have "formatKeymap_loop m' kvs = Inl e" by simp
      from "2.IH" [OF a Inr this] show ?thesis by auto
    qed
  qed
qed

text \<open>
  The \<^verbatim>\<open>switch\<close> in one equation: for a known key literal the new map holds the action
  under the byte sequences of the key and is the old map everywhere else.
\<close>

lemma formatKeymap_key_sequences:
  "formatKeymap_key m k a =
     (if key_literal_known k
      then Inr (\<lambda>q. if q \<in> set (key_sequences k) then Some a else m q)
      else Inl (UnknownKey k))"
  by (auto simp: formatKeymap_key_def key_literal_known_def key_sequences_def Let_def fun_eq_iff)

lemma key_sequences_nonempty: "key_literal_known k \<Longrightarrow> key_sequences k \<noteq> []"
  by (auto simp: key_literal_known_def key_sequences_def Let_def)

text \<open>The loop on a keymap visited in two parts.\<close>

lemma formatKeymap_loop_append:
  "formatKeymap_loop m (xs @ ys) =
     (case formatKeymap_loop m xs of Inl e \<Rightarrow> Inl e | Inr m1 \<Rightarrow> formatKeymap_loop m1 ys)"
  by (induction m xs rule: formatKeymap_loop.induct) (simp_all split: sum.splits)

text \<open>
  Bindings that store nothing under the sequences of a set \<open>S\<close> leave the entries of \<open>S\<close>
  as they find them, and do to the rest of the map what they do without those entries.
\<close>

lemma formatKeymap_loop_frame:
  assumes "\<forall>(k', v')\<in>set kvs. set (key_sequences k') \<inter> S = {}"
  shows "formatKeymap_loop (\<lambda>q. if q \<in> S then Some a else m q) kvs =
           (case formatKeymap_loop m kvs of
              Inl e \<Rightarrow> Inl e
            | Inr m2 \<Rightarrow> Inr (\<lambda>q. if q \<in> S then Some a else m2 q))"
  using assms
proof (induction m kvs rule: formatKeymap_loop.induct)
  case (1 m)
  then show ?case by simp
next
  case (2 m k v kvs)
  from "2.prems" have d: "set (key_sequences k) \<inter> S = {}"
    and r: "\<forall>(k', v')\<in>set kvs. set (key_sequences k') \<inter> S = {}"
    by auto
  show ?case
  proof (cases "formatKeymap_action v")
    case (Inl e)
    then show ?thesis by simp
  next
    case (Inr b)
    note b = this
    show ?thesis
    proof (cases "key_literal_known k")
      case False
      with b show ?thesis by (simp add: formatKeymap_key_sequences)
    next
      case True
      let ?m' = "\<lambda>q. if q \<in> set (key_sequences k) then Some b else m q"
      have k1: "formatKeymap_key m k b = Inr ?m'"
        using True by (simp add: formatKeymap_key_sequences)
      have c: "(\<lambda>q. if q \<in> set (key_sequences k) then Some b
                      else if q \<in> S then Some a else m q)
               = (\<lambda>q. if q \<in> S then Some a else ?m' q)"
        using d by (auto simp: fun_eq_iff)
      have k2: "formatKeymap_key (\<lambda>q. if q \<in> S then Some a else m q) k b
                  = Inr (\<lambda>q. if q \<in> S then Some a else ?m' q)"
        using True c by (simp add: formatKeymap_key_sequences)
      from "2.IH" [OF b k1 r] b k1 k2 show ?thesis by simp
    qed
  qed
qed

section \<open>The two variants of the compiler\<close>

lemma formatKeymap_action_part_000_eq: "formatKeymap_action_part_000 v = formatKeymap_action v"
  by (simp add: formatKeymap_action_part_000_def formatKeymap_action_def)

lemma formatKeymap_key_part_000_eq: "formatKeymap_key_part_000 m k a = formatKeymap_key m k a"
  by (simp add: formatKeymap_key_part_000_def formatKeymap_key_def)

lemma formatKeymap_loop_part_000_eq: "formatKeymap_loop_part_000 m kvs = formatKeymap_loop m kvs"
  by (induction m kvs rule: formatKeymap_loop.induct)
     (simp_all add: formatKeymap_action_part_000_eq formatKeymap_key_part_000_eq split: sum.splits)

section \<open>The dispatcher and stopChild\<close>

text \<open>An action with the empty type tag matches no case of the \<^verbatim>\<open>switch\<close>.\<close>

lemma dispatch_zeroAction: "dispatch stdinFile os zeroAction s = Continue s"
  by (simp add: dispatch_def zeroAction_def ActionTypeExit_def ActionTypeBecome_def
        ActionTypeExecute_def)

lemma dispatch_part_000_zeroAction: "dispatch_part_000 os zeroAction s = Continue s"
  by (simp add: dispatch_part_000_def zeroAction_def ActionTypeExit_def ActionTypeBecome_def
        ActionTypeExecute_def)

text \<open>When \<^verbatim>\<open>stopChild\<close> returns, the child's exit has been observed.\<close>

lemma stopChild_loop_nil:
  "stopChild_loop evs s = Some (s', evs') \<Longrightarrow> childExitChan_nil s'"
  by (induction evs s rule: stopChild_loop.induct) auto

lemma stopChild_nil:
  "stopChild b evs s = Some (s', evs') \<Longrightarrow> childExitChan_nil s'"
  by (auto simp: stopChild_def dest: stopChild_loop_nil split: if_splits)

text \<open>So a second call right after a first one changes nothing.\<close>

lemma stopChild_twice:
  assumes "stopChild b evs s = Some (s', evs')"
  shows "stopChild b' evs' s' = Some (s', evs')"
  using stopChild_nil [OF assms] by (simp add: stopChild_def)

text \<open>
  With \<^verbatim>\<open>--hold\<close>, the loop observes the child's exit and goes on; from then on
  \<^verbatim>\<open>childExitChan\<close> is \<^verbatim>\<open>nil\<close>.
\<close>

lemma hold_observes_exit:
  assumes "Hold flag" and "\<not> childExitChan_nil s"
  shows "\<exists>s'. main_iter flag stdinFile (ChildExit err) s = Continue s'
            \<and> mainWithReturn_iter flag (ChildExit err) s = Continue s'
            \<and> childExitChan_nil s' \<and> actionChan s' = actionChan s
            \<and> ptmx_writes s' = ptmx_writes s"
  using assms by (simp add: main_iter_def mainWithReturn_iter_def Let_def)

text \<open>
  Where the deferred \<^verbatim>\<open>term.Restore\<close> does run: the Exit action, which makes \<^verbatim>\<open>main\<close>
  return, leaves the terminal restored.
\<close>

lemma exit_action_restores_terminal:
  "main_from_raw \<lparr>Cmd = [''cat''], Keymap = [(''q'', ''exit'')], Hold = False, Input = []\<rparr>
       False (Some ''/tmp/keywrap-stdin1'')
       [TtyRead (ReadBytes ''q'') False,
        Select (ActionRecv \<lparr>sigterm_err = False, waits = [ExitReceived],
                            look_path = Some ''/usr/bin/bash'', exec_err = False, run_err = False\<rparr>)]
     = Some (Exited 0
               (initial\<lparr>childExitChan_nil := True, signals := [SIGTERM],
                         tty_raw := False, ptmx_closed := True\<rparr>))"
  by (simp add: main_from_raw_def formatKeymap_def formatKeymap_action_def formatKeymap_key_def
        reader_iter_def main_iter_def dispatch_def stopChild_def deferred_def
        initial_def ActionTypeExit_def)

text \<open>
  A panic of \<^verbatim>\<open>formatKeymap\<close> is raised in the reader goroutine, after raw mode was
  entered, and ends the program without the deferred calls of \<^verbatim>\<open>main\<close>.
\<close>

lemma unknown_key_leaves_terminal_raw:
  "main_from_raw \<lparr>Cmd = [''cat''], Keymap = [(''F1'', ''exit'')], Hold = False, Input = []\<rparr>
       False None steps = Some (Exited 2 initial)
   \<and> tty_raw initial"
  by (simp add: main_from_raw_def formatKeymap_def formatKeymap_action_def formatKeymap_key_def
        initial_def)

text \<open>
  In main.go the Become and Execute actions call \<^verbatim>\<open>stdinFile.Name()\<close>. When standard
  input is a terminal \<^verbatim>\<open>stdinFile\<close> is \<^verbatim>\<open>nil\<close>, the call panics in the main goroutine
  after the child was stopped, and the deferred calls restore the terminal.
\<close>

lemma become_without_piped_stdin_panics:
  "main_from_raw \<lparr>Cmd = [''cat''], Keymap = [(''q'', ''become(true)'')], Hold = False, Input = []\<rparr>
       False None
       [TtyRead (ReadBytes ''q'') False,
        Select (ActionRecv \<lparr>sigterm_err = False, waits = [ExitReceived],
                            look_path = Some ''/usr/bin/bash'', exec_err = False, run_err = False\<rparr>)]
     = Some (Exited 2
               (initial\<lparr>childExitChan_nil := True, signals := [SIGTERM],
                         tty_raw := False, ptmx_closed := True\<rparr>))"
  by (simp add: main_from_raw_def formatKeymap_def formatKeymap_action_def formatKeymap_key_def
        go_slice_def reader_iter_def main_iter_def dispatch_def stopChild_def deferred_def
        initial_def ActionTypeExit_def ActionTypeBecome_def)

section \<open>How a run can end\<close>

text \<open>
  Nothing but the deferred \<^verbatim>\<open>term.Restore\<close> changes the mode of the terminal: the reader,
  \<^verbatim>\<open>stopChild\<close> and the iterations of the loop leave it as it is.
\<close>

lemma reader_iter_tty_raw: "tty_raw (snd (reader_iter d km r we s)) = tty_raw s"
  by (simp add: reader_iter_def split: read_result.splits option.splits)

lemma stopChild_loop_tty_raw:
  "stopChild_loop evs s = Some (s', evs') \<Longrightarrow> tty_raw s' = tty_raw s"
  by (induction evs s rule: stopChild_loop.induct) auto

lemma stopChild_tty_raw:
  "stopChild b evs s = Some (s', evs') \<Longrightarrow> tty_raw s' = tty_raw s"
  by (auto simp: stopChild_def dest: stopChild_loop_tty_raw split: if_splits)

lemma dispatch_tty_raw:
  "dispatch sf os a s = Continue s' \<Longrightarrow> tty_raw s' = tty_raw s"
  "dispatch sf os a s = Replaced argv s' \<Longrightarrow> tty_raw s' = tty_raw s"
  "dispatch sf os a s \<noteq> Fatal s'"
  "dispatch sf os a s \<noteq> ReturnCode n s'"
  by (auto simp: dispatch_def execSyscall_def dest: stopChild_tty_raw
        split: if_splits option.splits prod.splits)

lemma main_iter_tty_raw:
  "main_iter flag sf ev s = Continue s' \<Longrightarrow> tty_raw s' = tty_raw s"
  "main_iter flag sf ev s = Replaced argv s' \<Longrightarrow> tty_raw s' = tty_raw s"
  "main_iter flag sf ev s \<noteq> Fatal s'"
  "main_iter flag sf ev s \<noteq> ReturnCode n s'"
  by (auto simp: main_iter_def Let_def dest: dispatch_tty_raw(1,2) simp: dispatch_tty_raw(3,4)
        split: event.splits if_splits list.splits)

text \<open>
  Every run of the loop of main.go that ends, ends in one of two ways: the process exits
  with status 0 or 2 and the terminal restored, or the process image is replaced and the
  terminal is in the mode it was in before, which is raw mode.
\<close>

lemma supervise_main_ending:
  assumes "supervise (main_iter flag sf) d km steps rd s = Some e"
  shows "case e of
           Exited n s' \<Rightarrow> \<not> tty_raw s' \<and> (n = 0 \<or> n = 2)
         | Exec argv s' \<Rightarrow> tty_raw s' = tty_raw s"
  using assms
proof (induction steps arbitrary: rd s)
  case Nil
  then show ?case by simp
next
  case (Cons st steps)
  show ?case
  proof (cases st)
    case (TtyRead r we)
    show ?thesis
    proof (cases "rd = Running \<and> length (actionChan s) \<le> 10")
      case True
      with TtyRead Cons.prems
      have "supervise (main_iter flag sf) d km steps
              (fst (reader_iter d km r we s)) (snd (reader_iter d km r we s)) = Some e"
        by simp
      from Cons.IH [OF this] show ?thesis
        by (cases e) (simp_all add: reader_iter_tty_raw)
    next
      case False
      with TtyRead Cons.prems have "supervise (main_iter flag sf) d km steps rd s = Some e"
        by auto
      from Cons.IH [OF this] show ?thesis .
    qed
  next
    case (Select ev)
    show ?thesis
    proof (cases "main_iter flag sf ev s")
      case (Continue s1)
      with Select Cons.prems have "supervise (main_iter flag sf) d km steps rd s1 = Some e"
        by simp
      from Cons.IH [OF this] main_iter_tty_raw(1) [OF Continue] show ?thesis
        by (cases e) simp_all
    next
      case (Return s1)
      with Select Cons.prems show ?thesis by (auto simp: deferred_def)
    next
      case (ReturnCode n s1)
      with main_iter_tty_raw(4) show ?thesis by blast
    next
      case (Panic p s1)
      with Select Cons.prems show ?thesis by (auto simp: deferred_def)
    next
      case (Replaced argv s1)
      with Select Cons.prems main_iter_tty_raw(2) [OF Replaced] show ?thesis by auto
    next
      case (Fatal s1)
      with main_iter_tty_raw(3) show ?thesis by blast
    next
      case Stopping
      with Select Cons.prems show ?thesis by simp
    next
      case NotReady
      with Select Cons.prems Cons.IH show ?thesis by simp
    qed
  qed
qed

text \<open>
  In part_000 there is a third way: \<^verbatim>\<open>execSyscall\<close> calls \<^verbatim>\<open>log.Fatal\<close> when the
  replacement cannot be started, and the process exits with status 1 and the terminal as
  it was.
\<close>

lemma dispatch_part_000_tty_raw:
  "dispatch_part_000 os a s = Continue s' \<Longrightarrow> tty_raw s' = tty_raw s"
  "dispatch_part_000 os a s = Replaced argv s' \<Longrightarrow> tty_raw s' = tty_raw s"
  "dispatch_part_000 os a s = Fatal s' \<Longrightarrow> tty_raw s' = tty_raw s"
  "dispatch_part_000 os a s = ReturnCode n s' \<Longrightarrow> n = 0"
  "dispatch_part_000 os a s \<noteq> Return s'"
  "dispatch_part_000 os a s \<noteq> Panic p s'"
  by (auto simp: dispatch_part_000_def execSyscall_part_000_def dest: stopChild_tty_raw
        split: if_splits option.splits prod.splits)

lemma mainWithReturn_iter_tty_raw:
  "mainWithReturn_iter flag ev s = Continue s' \<Longrightarrow> tty_raw s' = tty_raw s"
  "mainWithReturn_iter flag ev s = Replaced argv s' \<Longrightarrow> tty_raw s' = tty_raw s"
  "mainWithReturn_iter flag ev s = Fatal s' \<Longrightarrow> tty_raw s' = tty_raw s"
  "mainWithReturn_iter flag ev s = ReturnCode n s' \<Longrightarrow> n = 0"
  "mainWithReturn_iter flag ev s \<noteq> Return s'"
  "mainWithReturn_iter flag ev s \<noteq> Panic p s'"
  by (auto simp: mainWithReturn_iter_def Let_def dest: dispatch_part_000_tty_raw(1,2,3,4)
        simp: dispatch_part_000_tty_raw(5,6) split: event.splits if_splits list.splits)

lemma supervise_mainWithReturn_ending:
  assumes "supervise (mainWithReturn_iter flag) d km steps rd s = Some e"
  shows "case e of
           Exited n s' \<Rightarrow> (n = 0 \<and> \<not> tty_raw s') \<or> (n = 1 \<and> tty_raw s' = tty_raw s)
         | Exec argv s' \<Rightarrow> tty_raw s' = tty_raw s"
  using assms
proof (induction steps arbitrary: rd s)
  case Nil
  then show ?case by simp
next
  case (Cons st steps)
  show ?case
  proof (cases st)
    case (TtyRead r we)
    show ?thesis
    proof (cases "rd = Running \<and> length (actionChan s) \<le> 10")
      case True
      with TtyRead Cons.prems
      have "supervise (mainWithReturn_iter flag) d km steps
              (fst (reader_iter d km r we s)) (snd (reader_iter d km r we s)) = Some e"
        by simp
      from Cons.IH [OF this] show ?thesis
        by (cases e) (simp_all add: reader_iter_tty_raw)
    next
      case False
      with TtyRead Cons.prems have "supervise (mainWithReturn_iter flag) d km steps rd s = Some e"
        by auto
      from Cons.IH [OF this] show ?thesis .
    qed
  next
    case (Select ev)
    show ?thesis
    proof (cases "mainWithReturn_iter flag ev s")
      case (Continue s1)
      with Select Cons.prems have "supervise (mainWithReturn_iter flag) d km steps rd s1 = Some e"
        by simp
      from Cons.IH [OF this] mainWithReturn_iter_tty_raw(1) [OF Continue] show ?thesis
        by (cases e) simp_all
    next
      case (Return s1)
      with mainWithReturn_iter_tty_raw(5) show ?thesis by blast
    next
      case (ReturnCode n s1)
      with Select Cons.prems mainWithReturn_iter_tty_raw(4) [OF ReturnCode] show ?thesis
        by (auto simp: deferred_def)
    next
      case (Panic p s1)
      with mainWithReturn_iter_tty_raw(6) show ?thesis by blast
    next
      case (Replaced argv s1)
      with Select Cons.prems mainWithReturn_iter_tty_raw(2) [OF Replaced] show ?thesis by auto
    next
      case (Fatal s1)
      with Select Cons.prems mainWithReturn_iter_tty_raw(3) [OF Fatal] show ?thesis by auto
    next
      case Stopping
      with Select Cons.prems show ?thesis by simp
    next
      case NotReady
      with Select Cons.prems Cons.IH show ?thesis by simp
    qed
  qed
qed

section \<open>The claims\<close>

subsection \<open>The input reader\<close>

text \<open>
  C1. For every keymap that binds a byte sequence to an action and every read that
  returns exactly that byte sequence, with debug mode off, the reader's iteration sends
  one copy of the bound action on \<^verbatim>\<open>actionChan\<close>, behind the actions already there, and
  passes nothing to \<^verbatim>\<open>ptmx.Write\<close>; nothing else of the state changes. This holds while
  the child is running, and after its exit as well.
\<close>

theorem reader_enqueues_bound_action:
  assumes "keymap received = Some action"
  shows "\<exists>s'. reader_iter False keymap (ReadBytes received) write_err s = (Running, s')
           \<and> s' = s\<lparr>actionChan := actionChan s @ [action]\<rparr>
           \<and> actionChan s' = actionChan s @ [action]
           \<and> ptmx_writes s' = ptmx_writes s"
  using assms by (simp add: reader_iter_def)

text \<open>
  The example of the specification: the keymap compiled from \<^verbatim>\<open>q:exit\<close>, a running child,
  the byte \<^verbatim>\<open>q\<close> read.
\<close>

theorem reader_enqueues_bound_action_witness:
  "[''q'' \<mapsto> \<lparr>Type = ''exit'', Arg = []\<rparr>] ''q'' = Some \<lparr>Type = ''exit'', Arg = []\<rparr>
   \<and> formatKeymap [(''q'', ''exit'')] = Inr [''q'' \<mapsto> \<lparr>Type = ''exit'', Arg = []\<rparr>]
   \<and> (\<exists>s'. reader_iter False [''q'' \<mapsto> \<lparr>Type = ''exit'', Arg = []\<rparr>] (ReadBytes ''q'') False initial
               = (Running, s')
          \<and> actionChan s' = [\<lparr>Type = ''exit'', Arg = []\<rparr>]
          \<and> ptmx_writes s' = [])"
proof -
  have h: "[''q'' \<mapsto> \<lparr>Type = ''exit'', Arg = []\<rparr>] ''q'' = Some \<lparr>Type = ''exit'', Arg = []\<rparr>"
    by simp
  have c: "formatKeymap [(''q'', ''exit'')] = Inr [''q'' \<mapsto> \<lparr>Type = ''exit'', Arg = []\<rparr>]"
    by (simp add: formatKeymap_def formatKeymap_action_def formatKeymap_key_def ActionTypeExit_def)
  from reader_enqueues_bound_action
         [of "[''q'' \<mapsto> \<lparr>Type = ''exit'', Arg = []\<rparr>]" "''q''" "\<lparr>Type = ''exit'', Arg = []\<rparr>"
             False initial]
  show ?thesis using h c by (simp add: initial_def)
qed

text \<open>
  C2. For every read whose byte sequence has no entry in the keymap, while the child's
  exit has not been observed and debug mode is off, the reader's iteration passes exactly
  those bytes to \<^verbatim>\<open>ptmx.Write\<close>, after the chunks written before, and sends no action.
  (The reader goes on unless the write returns an error.)
\<close>

theorem reader_forwards_unmapped:
  assumes "keymap received = None" and "\<not> childExitChan_nil s"
  shows "\<exists>s'. reader_iter False keymap (ReadBytes received) write_err s
             = (if write_err then Returned else Running, s')
           \<and> ptmx_writes s' = ptmx_writes s @ [received]
           \<and> actionChan s' = actionChan s"
  using assms by (simp add: reader_iter_def)

theorem reader_forwards_unmapped_witness:
  "[''q'' \<mapsto> \<lparr>Type = ''exit'', Arg = []\<rparr>] ''x'' = None \<and> \<not> childExitChan_nil initial
   \<and> (\<exists>s'. reader_iter False [''q'' \<mapsto> \<lparr>Type = ''exit'', Arg = []\<rparr>] (ReadBytes ''x'') False initial
               = (Running, s')
          \<and> ptmx_writes s' = [''x'']
          \<and> actionChan s' = [])"
proof -
  have h: "[''q'' \<mapsto> \<lparr>Type = ''exit'', Arg = []\<rparr>] ''x'' = None"
    by simp
  have r: "\<not> childExitChan_nil initial"
    by (simp add: initial_def)
  from reader_forwards_unmapped
         [of "[''q'' \<mapsto> \<lparr>Type = ''exit'', Arg = []\<rparr>]" "''x''" initial False]
  show ?thesis using h r by (simp add: initial_def)
qed

text \<open>
  C6, as stated, fails in debug mode: with \<^verbatim>\<open>DEBUG=1\<close> the reader only logs what it
  read. Here the child has exited under \<^verbatim>\<open>--hold\<close>, the loop has observed it, the
  unmapped byte \<^verbatim>\<open>x\<close> is read, and no Exit action is sent.
\<close>

theorem hold_any_key_debug_counterexample:
  "main_iter \<lparr>Cmd = [''cat''], Keymap = [], Hold = True, Input = []\<rparr> None (ChildExit None) initial
     = Continue (initial\<lparr>childExitChan_nil := True, logged := [HoldNotice]\<rparr>)
   \<and> reader_iter True Map.empty (ReadBytes ''x'') False
        (initial\<lparr>childExitChan_nil := True, logged := [HoldNotice]\<rparr>)
     = (Running, initial\<lparr>childExitChan_nil := True,
                          logged := [HoldNotice, DebugKey ''x'' zeroAction]\<rparr>)
   \<and> actionChan (initial\<lparr>childExitChan_nil := True,
                          logged := [HoldNotice, DebugKey ''x'' zeroAction]\<rparr>) = []"
  by (simp add: main_iter_def reader_iter_def initial_def)

text \<open>
  C6, amended: after the child's exit has been observed (under \<^verbatim>\<open>--hold\<close> the loop then
  goes on, see \<open>hold_observes_exit\<close>) and with debug mode off, every read whose byte
  sequence has no keymap entry makes the reader send exactly one Exit action, and nothing
  is passed to \<^verbatim>\<open>ptmx.Write\<close>.
\<close>

theorem hold_any_key_exits:
  assumes "childExitChan_nil s" and "keymap received = None"
  shows "\<exists>s'. reader_iter False keymap (ReadBytes received) write_err s = (Running, s')
           \<and> actionChan s' = actionChan s @ [\<lparr>Type = ActionTypeExit, Arg = []\<rparr>]
           \<and> ptmx_writes s' = ptmx_writes s"
  using assms by (simp add: reader_iter_def)

theorem hold_any_key_exits_witness:
  "childExitChan_nil (initial\<lparr>childExitChan_nil := True, logged := [HoldNotice]\<rparr>)
   \<and> Map.empty ''x'' = (None :: Action option)
   \<and> (\<exists>s'. reader_iter False Map.empty (ReadBytes ''x'') False
               (initial\<lparr>childExitChan_nil := True, logged := [HoldNotice]\<rparr>) = (Running, s')
          \<and> actionChan s' = [\<lparr>Type = ''exit'', Arg = []\<rparr>]
          \<and> ptmx_writes s' = [])"
proof -
  have h: "childExitChan_nil (initial\<lparr>childExitChan_nil := True, logged := [HoldNotice]\<rparr>)"
    by simp
  have k: "Map.empty ''x'' = (None :: Action option)"
    by simp
  from hold_any_key_exits
         [of "initial\<lparr>childExitChan_nil := True, logged := [HoldNotice]\<rparr>" Map.empty "''x''" False]
  show ?thesis using h k by (simp add: initial_def ActionTypeExit_def)
qed

subsection \<open>The exit status\<close>

text \<open>
  C3, as stated, fails: the child exits with a failure, \<^verbatim>\<open>--hold\<close> is not set, no action
  was dispatched, and both variants exit with status 0. The failure is logged only.
\<close>

theorem child_failure_exit_status_counterexample:
  "main_from_raw \<lparr>Cmd = [''false''], Keymap = [], Hold = False, Input = []\<rparr> False None
       [Select (ChildExit (Some ''exit status 1''))]
     = Some (Exited 0 (initial\<lparr>childExitChan_nil := True,
                               logged := [CommandFinishedWithError ''exit status 1''],
                               tty_raw := False, ptmx_closed := True\<rparr>))
   \<and> mainWithReturn_from_raw \<lparr>Cmd = [''false''], Keymap = [], Hold = False, Input = []\<rparr> False
       [Select (ChildExit (Some ''exit status 1''))]
     = Some (Exited 0 (initial\<lparr>childExitChan_nil := True,
                               logged := [CommandFinishedWithError ''exit status 1''],
                               tty_raw := False, ptmx_closed := True\<rparr>))"
  by (simp add: main_from_raw_def mainWithReturn_from_raw_def formatKeymap_def
        formatKeymap_part_000_def main_iter_def mainWithReturn_iter_def initial_def deferred_def)

text \<open>
  C3, amended: when the child exits on its own and hold mode is not requested, the
  supervisor's own exit status is 0, whether the child completed cleanly (\<open>err = None\<close>)
  or failed; a failure of the child is written to the log and not to the exit status. In
  both variants, from every state in which the exit has not been observed yet.
\<close>

theorem child_exit_status_zero:
  assumes "\<not> Hold flag" and "\<not> childExitChan_nil s"
  shows "\<exists>s'. supervise (main_iter flag stdinFile) isDebug keymap (Select (ChildExit err) # steps) rd s
               = Some (Exited 0 s')
           \<and> supervise (mainWithReturn_iter flag) isDebug keymap (Select (ChildExit err) # steps) rd s
               = Some (Exited 0 s')
           \<and> logged s' = logged s @ (case err of None \<Rightarrow> [] | Some e \<Rightarrow> [CommandFinishedWithError e])"
  using assms
  by (simp add: main_iter_def mainWithReturn_iter_def deferred_def Let_def)

theorem child_exit_status_zero_witness:
  "\<not> Hold \<lparr>Cmd = [''false''], Keymap = [], Hold = False, Input = []\<rparr> \<and> \<not> childExitChan_nil initial
   \<and> (\<exists>s'. supervise (main_iter \<lparr>Cmd = [''false''], Keymap = [], Hold = False, Input = []\<rparr> None)
               False Map.empty [Select (ChildExit (Some ''exit status 1''))] Running initial
               = Some (Exited 0 s')
          \<and> supervise (mainWithReturn_iter \<lparr>Cmd = [''false''], Keymap = [], Hold = False, Input = []\<rparr>)
               False Map.empty [Select (ChildExit (Some ''exit status 1''))] Running initial
               = Some (Exited 0 s')
          \<and> logged s' = [CommandFinishedWithError ''exit status 1''])"
proof -
  have h: "\<not> Hold \<lparr>Cmd = [''false''], Keymap = [], Hold = False, Input = []\<rparr>"
    by simp
  have r: "\<not> childExitChan_nil initial"
    by (simp add: initial_def)
  from child_exit_status_zero [OF h r, of None False Map.empty "Some ''exit status 1''" "[]" Running]
  show ?thesis using h r by (simp add: initial_def)
qed

subsection \<open>Restoring the terminal\<close>

text \<open>
  C4 says that on every exit path after raw mode was entered, the Become path included,
  the previous mode of the terminal is restored. It does not hold of the code. The run:
  keymap \<^verbatim>\<open>q:become(true)\<close>, piped standard input, the key \<^verbatim>\<open>q\<close> is read, the loop
  dispatches the Become action, the child exits on SIGTERM, \<^verbatim>\<open>syscall.Exec\<close> succeeds.
  The process image is replaced while the terminal is still in raw mode: the deferred
  \<^verbatim>\<open>term.Restore\<close> never runs. In both variants. (\<open>supervise_main_ending\<close> and
  \<open>supervise_mainWithReturn_ending\<close> say on which paths the terminal is restored.)
\<close>

theorem become_leaves_terminal_raw:
  "main_from_raw \<lparr>Cmd = [''cat''], Keymap = [(''q'', ''become(true)'')], Hold = False, Input = []\<rparr>
       False (Some ''/tmp/keywrap-stdin1'')
       [TtyRead (ReadBytes ''q'') False,
        Select (ActionRecv \<lparr>sigterm_err = False, waits = [ExitReceived],
                            look_path = Some ''/usr/bin/bash'', exec_err = False, run_err = False\<rparr>)]
     = Some (Exec [''/usr/bin/bash'', ''-c'', ''true'']
               (initial\<lparr>childExitChan_nil := True, signals := [SIGTERM]\<rparr>))
   \<and> mainWithReturn_from_raw
       \<lparr>Cmd = [''cat''], Keymap = [(''q'', ''become(true)'')], Hold = False, Input = []\<rparr> False
       [TtyRead (ReadBytes ''q'') False,
        Select (ActionRecv \<lparr>sigterm_err = False, waits = [ExitReceived],
                            look_path = Some ''/usr/bin/bash'', exec_err = False, run_err = False\<rparr>)]
     = Some (Exec [''/usr/bin/bash'', ''-c'', ''true'']
               (initial\<lparr>childExitChan_nil := True, signals := [SIGTERM]\<rparr>))
   \<and> tty_raw (initial\<lparr>childExitChan_nil := True, signals := [SIGTERM]\<rparr>)"
  by (simp add: main_from_raw_def mainWithReturn_from_raw_def formatKeymap_def
        formatKeymap_part_000_def formatKeymap_action_def formatKeymap_action_part_000_def
        formatKeymap_key_def formatKeymap_key_part_000_def go_slice_def reader_iter_def
        main_iter_def mainWithReturn_iter_def dispatch_def dispatch_part_000_def stopChild_def
        execSyscall_def execSyscall_part_000_def initial_def ActionTypeExit_def
        ActionTypeBecome_def ActionTypeExecute_def ReplaceAll_true)

subsection \<open>The keymap compiler\<close>

text \<open>
  C5, as stated, fails: the binding \<^verbatim>\<open>q:quit\<close> compiles, to a map that holds the zero
  Action under the byte \<^verbatim>\<open>q\<close>.
\<close>

theorem unknown_spec_counterexample:
  "formatKeymap [(''q'', ''quit'')] = Inr [''q'' \<mapsto> zeroAction]"
  by (simp add: formatKeymap_def formatKeymap_action_def formatKeymap_key_def)

text \<open>
  C5, amended: for every keymap binding whose action-spec is neither the literal
  \<^verbatim>\<open>exit\<close> nor begins with \<^verbatim>\<open>become(\<close> or \<^verbatim>\<open>execute(\<close>, compilation does not fail on
  the action-spec. The spec stands for the zero-valued Action; with a key literal the
  \<^verbatim>\<open>switch\<close> knows, the binding compiles to a non-empty map whose entries all hold the
  zero-valued Action; compilation fails exactly when the key literal is unknown, and then
  with the unknown-key panic.
\<close>

theorem formatKeymap_unknown_spec:
  assumes "v \<noteq> ''exit''" and "\<not> prefix ''become('' v" and "\<not> prefix ''execute('' v"
  shows "formatKeymap_action v = Inr zeroAction
         \<and> (key_literal_known k \<longrightarrow>
              (\<exists>m. formatKeymap [(k, v)] = Inr m \<and> dom m \<noteq> {}
                 \<and> (\<forall>seq\<in>dom m. m seq = Some zeroAction)))
         \<and> (\<not> key_literal_known k \<longrightarrow> formatKeymap [(k, v)] = Inl (UnknownKey k))"
proof -
  have a: "formatKeymap_action v = Inr zeroAction"
    using assms by (rule formatKeymap_action_unknown)
  have s: "formatKeymap [(k, v)] = formatKeymap_key Map.empty k zeroAction"
    using a by (rule formatKeymap_single)
  show ?thesis
    using a s formatKeymap_key_known [of k zeroAction]
      formatKeymap_key_unknown [of k Map.empty zeroAction]
    by simp
qed

theorem formatKeymap_unknown_spec_witness:
  "''quit'' \<noteq> ''exit'' \<and> \<not> prefix ''become('' ''quit'' \<and> \<not> prefix ''execute('' ''quit''
   \<and> key_literal_known ''q'' \<and> \<not> key_literal_known ''F1''
   \<and> formatKeymap_action ''quit'' = Inr zeroAction
   \<and> (\<exists>m. formatKeymap [(''q'', ''quit'')] = Inr m \<and> dom m \<noteq> {}
          \<and> (\<forall>seq\<in>dom m. m seq = Some zeroAction))
   \<and> formatKeymap [(''F1'', ''quit'')] = Inl (UnknownKey ''F1'')"
proof -
  have h: "''quit'' \<noteq> ''exit''" "\<not> prefix ''become('' ''quit''" "\<not> prefix ''execute('' ''quit''"
    by simp_all
  have k: "key_literal_known ''q''" "\<not> key_literal_known ''F1''"
    by (simp_all add: key_literal_known_def)
  from formatKeymap_unknown_spec [OF h, of "''q''"] formatKeymap_unknown_spec [OF h, of "''F1''"]
  show ?thesis using h k by simp
qed

text \<open>
  C7. Compiling the key literal \<^verbatim>\<open>ctrl-a\<close>, bound to a spec \<open>v\<close> that stands for the
  action \<open>a\<close>, gives a map with exactly two entries, the control byte 0x01 and the CSI-u
  sequence \<^verbatim>\<open>ESC [ 9 7 ; 5 u\<close>, and both entries hold the same action \<open>a\<close>. Inside a
  larger keymap, the loop stores exactly these two entries in the map built so far when
  it visits the binding.
\<close>

theorem formatKeymap_ctrl_a:
  assumes "formatKeymap_action v = Inr a"
  shows "(\<exists>m. formatKeymap [(''ctrl-a'', v)] = Inr m
            \<and> dom m = {[CHR 0x01], CHR 0x1B # ''[97;5u''}
            \<and> m [CHR 0x01] = Some a
            \<and> m (CHR 0x1B # ''[97;5u'') = Some a)
         \<and> formatKeymap_loop m0 ((''ctrl-a'', v) # kvs)
             = formatKeymap_loop (m0(CHR 0x1B # ''[97;5u'' \<mapsto> a, [CHR 0x01] \<mapsto> a)) kvs"
proof -
  let ?m = "Map.empty(CHR 0x1B # ''[97;5u'' \<mapsto> a, [CHR 0x01] \<mapsto> a)"
  have "formatKeymap [(''ctrl-a'', v)] = Inr ?m"
    using assms by (simp add: formatKeymap_def formatKeymap_key_ctrl_a)
  moreover have "dom ?m = {[CHR 0x01], CHR 0x1B # ''[97;5u''}"
    by auto
  moreover have "?m [CHR 0x01] = Some a" "?m (CHR 0x1B # ''[97;5u'') = Some a"
    by simp_all
  moreover have "formatKeymap_loop m0 ((''ctrl-a'', v) # kvs)
                   = formatKeymap_loop (m0(CHR 0x1B # ''[97;5u'' \<mapsto> a, [CHR 0x01] \<mapsto> a)) kvs"
    using assms by (simp add: formatKeymap_key_ctrl_a)
  ultimately show ?thesis
    by blast
qed

theorem formatKeymap_ctrl_a_witness:
  "formatKeymap_action ''become(nvim a.json)'' = Inr \<lparr>Type = ''become'', Arg = ''nvim a.json''\<rparr>
   \<and> (\<exists>m. formatKeymap [(''ctrl-a'', ''become(nvim a.json)'')] = Inr m
           \<and> dom m = {[CHR 0x01], CHR 0x1B # ''[97;5u''}
           \<and> m [CHR 0x01] = Some \<lparr>Type = ''become'', Arg = ''nvim a.json''\<rparr>
           \<and> m (CHR 0x1B # ''[97;5u'') = Some \<lparr>Type = ''become'', Arg = ''nvim a.json''\<rparr>)"
proof -
  have h: "formatKeymap_action ''become(nvim a.json)''
             = Inr \<lparr>Type = ''become'', Arg = ''nvim a.json''\<rparr>"
    by (simp add: formatKeymap_action_def go_slice_def ActionTypeBecome_def)
  show ?thesis
    using h formatKeymap_ctrl_a [OF h] by simp
qed

text \<open>
  C9, as stated, fails in two ways. For a key literal the \<^verbatim>\<open>switch\<close> does not know, the
  binding \<^verbatim>\<open>foo:quit\<close> has a spec of the kind the claim is about and compilation panics.
  And where another binding stores an action under the same byte sequence, the key does
  perform that action: in the keymap \<^verbatim>\<open>enter:quit\<close>, \<^verbatim>\<open>ctrl-j:exit\<close>, visited in this
  order, the newline holds the Exit action, the reader sends it when Enter is pressed and
  the loop stops the child and returns.
\<close>

theorem unknown_key_counterexample:
  "formatKeymap [(''foo'', ''quit'')] = Inl (UnknownKey ''foo'')
   \<and> formatKeymap [(''enter'', ''quit''), (''ctrl-j'', ''exit'')]
       = Inr [[CHR 0x0A] \<mapsto> zeroAction,
              CHR 0x1B # ''[106;5u'' \<mapsto> \<lparr>Type = ''exit'', Arg = []\<rparr>,
              [CHR 0x0A] \<mapsto> \<lparr>Type = ''exit'', Arg = []\<rparr>]
   \<and> [[CHR 0x0A] \<mapsto> zeroAction,
       CHR 0x1B # ''[106;5u'' \<mapsto> \<lparr>Type = ''exit'', Arg = []\<rparr>,
       [CHR 0x0A] \<mapsto> \<lparr>Type = ''exit'', Arg = []\<rparr>] [CHR 0x0A]
       = Some \<lparr>Type = ''exit'', Arg = []\<rparr>
   \<and> reader_iter False
        [[CHR 0x0A] \<mapsto> zeroAction,
         CHR 0x1B # ''[106;5u'' \<mapsto> \<lparr>Type = ''exit'', Arg = []\<rparr>,
         [CHR 0x0A] \<mapsto> \<lparr>Type = ''exit'', Arg = []\<rparr>] (ReadBytes [CHR 0x0A]) False initial
       = (Running, initial\<lparr>actionChan := [\<lparr>Type = ''exit'', Arg = []\<rparr>]\<rparr>)
   \<and> main_iter \<lparr>Cmd = [''cat''], Keymap = [(''enter'', ''quit''), (''ctrl-j'', ''exit'')],
                 Hold = False, Input = []\<rparr> None
        (ActionRecv \<lparr>sigterm_err = False, waits = [ExitReceived], look_path = None,
                     exec_err = False, run_err = False\<rparr>)
        (initial\<lparr>actionChan := [\<lparr>Type = ''exit'', Arg = []\<rparr>]\<rparr>)
       = Return (initial\<lparr>childExitChan_nil := True, signals := [SIGTERM]\<rparr>)"
  by (simp add: formatKeymap_def formatKeymap_action_def formatKeymap_key_def Let_def csi_u_j
        char_eval ActionTypeExit_def reader_iter_def main_iter_def dispatch_def stopChild_def
        initial_def)

text \<open>
  C9, amended: take a keymap, in the order the loop visits it, with a binding whose key
  literal is one the \<^verbatim>\<open>switch\<close> knows and whose action-spec is neither \<^verbatim>\<open>exit\<close> nor
  prefixed by \<^verbatim>\<open>become(\<close> nor \<^verbatim>\<open>execute(\<close>; let the other bindings compile, and let no
  binding visited later store anything under a byte sequence of this key. Then
  compilation succeeds; the key has at least one byte sequence; the compiled map holds
  the zero-valued Action under every byte sequence of the key and is, everywhere else,
  the map the other bindings compile to. When a sequence of the key is read, the reader
  sends the zero-valued Action and passes nothing to \<^verbatim>\<open>ptmx.Write\<close> (in debug mode it
  only logs the key); the loop of either variant then takes the action off the channel
  and goes on with no other change of the state: no signal, no process replacement, no
  command run, no return.
\<close>

theorem unknown_spec_key_is_swallowed:
  assumes "key_literal_known k"
    and "v \<noteq> ''exit''" and "\<not> prefix ''become('' v" and "\<not> prefix ''execute('' v"
    and "\<forall>(k', v')\<in>set post. set (key_sequences k') \<inter> set (key_sequences k) = {}"
    and "formatKeymap (pre @ post) = Inr m'"
  shows "key_sequences k \<noteq> []
         \<and> (\<exists>m. formatKeymap (pre @ (k, v) # post) = Inr m
              \<and> m = (\<lambda>q. if q \<in> set (key_sequences k) then Some zeroAction else m' q)
              \<and> (\<forall>seq\<in>set (key_sequences k).
                    m seq = Some zeroAction
                    \<and> reader_iter False m (ReadBytes seq) write_err s
                        = (Running, s\<lparr>actionChan := actionChan s @ [zeroAction]\<rparr>)
                    \<and> reader_iter True m (ReadBytes seq) write_err s
                        = (Running, s\<lparr>logged := logged s @ [DebugKey seq zeroAction]\<rparr>)))
         \<and> main_iter flag stdinFile (ActionRecv os) (s\<lparr>actionChan := zeroAction # rest\<rparr>)
             = Continue (s\<lparr>actionChan := rest\<rparr>)
         \<and> mainWithReturn_iter flag (ActionRecv os) (s\<lparr>actionChan := zeroAction # rest\<rparr>)
             = Continue (s\<lparr>actionChan := rest\<rparr>)"
proof -
  let ?m = "\<lambda>q. if q \<in> set (key_sequences k) then Some zeroAction else m' q"
  have a: "formatKeymap_action v = Inr zeroAction"
    using assms(2-4) by (rule formatKeymap_action_unknown)
  from assms(6) obtain m0 where p: "formatKeymap_loop Map.empty pre = Inr m0"
    and q: "formatKeymap_loop m0 post = Inr m'"
    by (auto simp: formatKeymap_def formatKeymap_loop_append split: sum.splits)
  have "formatKeymap_loop m0 ((k, v) # post)
          = formatKeymap_loop (\<lambda>q. if q \<in> set (key_sequences k) then Some zeroAction else m0 q) post"
    using a assms(1) by (simp add: formatKeymap_key_sequences)
  also have "\<dots> = Inr ?m"
    using formatKeymap_loop_frame [OF assms(5), of zeroAction m0] q by simp
  finally have c: "formatKeymap (pre @ (k, v) # post) = Inr ?m"
    using p by (simp add: formatKeymap_def formatKeymap_loop_append)
  have n: "key_sequences k \<noteq> []"
    using assms(1) by (rule key_sequences_nonempty)
  have r: "\<forall>seq\<in>set (key_sequences k).
             ?m seq = Some zeroAction
             \<and> reader_iter False ?m (ReadBytes seq) write_err s
                 = (Running, s\<lparr>actionChan := actionChan s @ [zeroAction]\<rparr>)
             \<and> reader_iter True ?m (ReadBytes seq) write_err s
                 = (Running, s\<lparr>logged := logged s @ [DebugKey seq zeroAction]\<rparr>)"
    by (simp add: reader_iter_def)
  have d1: "main_iter flag stdinFile (ActionRecv os) (s\<lparr>actionChan := zeroAction # rest\<rparr>)
              = Continue (s\<lparr>actionChan := rest\<rparr>)"
    by (simp add: main_iter_def dispatch_zeroAction)
  have d2: "mainWithReturn_iter flag (ActionRecv os) (s\<lparr>actionChan := zeroAction # rest\<rparr>)
              = Continue (s\<lparr>actionChan := rest\<rparr>)"
    by (simp add: mainWithReturn_iter_def dispatch_part_000_zeroAction)
  show ?thesis
    using n c r d1 d2 by blast
qed

text \<open>
  The keymap \<^verbatim>\<open>e:exit\<close>, \<^verbatim>\<open>ctrl-a:quit\<close>, \<^verbatim>\<open>x:execute(ls)\<close>: both sequences of \<^verbatim>\<open>ctrl-a\<close>
  hold the zero-valued Action, the other two keys keep their actions, and the control
  byte 0x01, read while the child runs, goes through the channel and leaves the state as
  it was.
\<close>

theorem unknown_spec_key_is_swallowed_witness:
  "key_literal_known ''ctrl-a'' \<and> ''quit'' \<noteq> ''exit''
   \<and> \<not> prefix ''become('' ''quit'' \<and> \<not> prefix ''execute('' ''quit''
   \<and> key_sequences ''ctrl-a'' = [CHR 0x1B # ''[97;5u'', [CHR 0x01]]
   \<and> set (key_sequences ''x'') \<inter> set (key_sequences ''ctrl-a'') = {}
   \<and> formatKeymap [(''e'', ''exit''), (''x'', ''execute(ls)'')]
       = Inr [''e'' \<mapsto> \<lparr>Type = ''exit'', Arg = []\<rparr>, ''x'' \<mapsto> \<lparr>Type = ''execute'', Arg = ''ls''\<rparr>]
   \<and> (\<exists>m. formatKeymap [(''e'', ''exit''), (''ctrl-a'', ''quit''), (''x'', ''execute(ls)'')] = Inr m
          \<and> m [CHR 0x01] = Some zeroAction
          \<and> m (CHR 0x1B # ''[97;5u'') = Some zeroAction
          \<and> m ''e'' = Some \<lparr>Type = ''exit'', Arg = []\<rparr>
          \<and> m ''x'' = Some \<lparr>Type = ''execute'', Arg = ''ls''\<rparr>
          \<and> m ''y'' = None
          \<and> reader_iter False m (ReadBytes [CHR 0x01]) False initial
              = (Running, initial\<lparr>actionChan := [zeroAction]\<rparr>)
          \<and> main_iter \<lparr>Cmd = [''cat''],
                        Keymap = [(''e'', ''exit''), (''ctrl-a'', ''quit''), (''x'', ''execute(ls)'')],
                        Hold = False, Input = []\<rparr> None
                (ActionRecv \<lparr>sigterm_err = False, waits = [], look_path = None,
                             exec_err = False, run_err = False\<rparr>)
                (initial\<lparr>actionChan := [zeroAction]\<rparr>)
              = Continue initial)"
proof -
  let ?E = "\<lparr>Type = ''exit'', Arg = []\<rparr>"
  let ?X = "\<lparr>Type = ''execute'', Arg = ''ls''\<rparr>"
  let ?flag = "\<lparr>Cmd = [''cat''],
                 Keymap = [(''e'', ''exit''), (''ctrl-a'', ''quit''), (''x'', ''execute(ls)'')],
                 Hold = False, Input = []\<rparr>"
  let ?os = "\<lparr>sigterm_err = False, waits = [], look_path = None, exec_err = False, run_err = False\<rparr>"
  have k: "key_literal_known ''ctrl-a''"
    by (simp add: key_literal_known_def)
  have h: "''quit'' \<noteq> ''exit''" "\<not> prefix ''become('' ''quit''" "\<not> prefix ''execute('' ''quit''"
    by simp_all
  have ks: "key_sequences ''ctrl-a'' = [CHR 0x1B # ''[97;5u'', [CHR 0x01]]"
      "key_sequences ''x'' = [''x'']"
    by (simp_all add: key_sequences_eval)
  have d: "\<forall>(k', v')\<in>set [(''x'', ''execute(ls)'')].
             set (key_sequences k') \<inter> set (key_sequences ''ctrl-a'') = {}"
    by (simp add: ks)
  have c: "formatKeymap ([(''e'', ''exit'')] @ [(''x'', ''execute(ls)'')]) = Inr [''e'' \<mapsto> ?E, ''x'' \<mapsto> ?X]"
    by (simp add: formatKeymap_def formatKeymap_action_def formatKeymap_key_def go_slice_def
          ActionTypeExit_def ActionTypeExecute_def)
  from unknown_spec_key_is_swallowed [OF k h d c, of False initial ?flag None ?os "[]"]
  obtain m where m: "formatKeymap ([(''e'', ''exit'')] @ (''ctrl-a'', ''quit'') # [(''x'', ''execute(ls)'')]) = Inr m"
    and e: "m = (\<lambda>q. if q \<in> set (key_sequences ''ctrl-a'') then Some zeroAction
                     else [''e'' \<mapsto> ?E, ''x'' \<mapsto> ?X] q)"
    and r: "\<forall>seq\<in>set (key_sequences ''ctrl-a'').
              m seq = Some zeroAction
              \<and> reader_iter False m (ReadBytes seq) False initial
                  = (Running, initial\<lparr>actionChan := actionChan initial @ [zeroAction]\<rparr>)
              \<and> reader_iter True m (ReadBytes seq) False initial
                  = (Running, initial\<lparr>logged := logged initial @ [DebugKey seq zeroAction]\<rparr>)"
    and dd: "main_iter ?flag None (ActionRecv ?os) (initial\<lparr>actionChan := [zeroAction]\<rparr>)
            = Continue (initial\<lparr>actionChan := []\<rparr>)"
    by blast
  from r have rr: "reader_iter False m (ReadBytes [CHR 0x01]) False initial
                     = (Running, initial\<lparr>actionChan := actionChan initial @ [zeroAction]\<rparr>)"
    by (simp add: ks)
  have i: "actionChan initial = []" "initial\<lparr>actionChan := []\<rparr> = initial"
    by (simp_all add: initial_def)
  have l: "m [CHR 0x01] = Some zeroAction" "m (CHR 0x1B # ''[97;5u'') = Some zeroAction"
      "m ''e'' = Some ?E" "m ''x'' = Some ?X" "m ''y'' = None"
    by (simp_all add: e ks)
  from c have c': "formatKeymap [(''e'', ''exit''), (''x'', ''execute(ls)'')] = Inr [''e'' \<mapsto> ?E, ''x'' \<mapsto> ?X]"
    by simp
  from m have m': "formatKeymap [(''e'', ''exit''), (''ctrl-a'', ''quit''), (''x'', ''execute(ls)'')] = Inr m"
    by simp
  have dj: "set (key_sequences ''x'') \<inter> set (key_sequences ''ctrl-a'') = {}"
    by (simp add: ks)
  show ?thesis
    using k h ks(1) dj c' m' l rr dd i by auto
qed


text \<open>
  C10, as stated, fails: on the binding \<^verbatim>\<open>q:become(\<close> both compilers fail, yet not on an
  unknown key literal, and neither returns a map. Both panic in the slice expression
  \<^verbatim>\<open>v[7 : len(v)-1]\<close>, which is \<^verbatim>\<open>v[7:6]\<close> here.
\<close>

theorem formatKeymap_variants_counterexample:
  "formatKeymap [(''q'', ''become('')] = Inl (SliceBounds 7 6)
   \<and> formatKeymap_part_000 [(''q'', ''become('')] = Inl (SliceBounds 7 6)"
  by (simp add: formatKeymap_def formatKeymap_part_000_def formatKeymap_action_def
        formatKeymap_action_part_000_def go_slice_def)

text \<open>
  C10, amended: the two compilers are equivalent. For every input map, visited in the
  same order, they give the same result, and that result is one of: the panic on an
  unknown key literal of the map, the slice-bounds panic on a spec of the map that is
  exactly \<^verbatim>\<open>become(\<close> or exactly \<^verbatim>\<open>execute(\<close>, or a map from byte sequences to actions.
\<close>

theorem formatKeymap_variants_equal:
  "formatKeymap_part_000 keymap = formatKeymap keymap
   \<and> ((\<exists>k v. (k, v) \<in> set keymap \<and> \<not> key_literal_known k
              \<and> formatKeymap keymap = Inl (UnknownKey k))
      \<or> (\<exists>k. (k, ''become('') \<in> set keymap \<and> formatKeymap keymap = Inl (SliceBounds 7 6))
      \<or> (\<exists>k. (k, ''execute('') \<in> set keymap \<and> formatKeymap keymap = Inl (SliceBounds 8 7))
      \<or> (\<exists>m. formatKeymap keymap = Inr m))"
proof -
  have "formatKeymap_part_000 keymap = formatKeymap keymap"
    by (simp add: formatKeymap_part_000_def formatKeymap_def formatKeymap_loop_part_000_eq)
  moreover have "(\<exists>k v. (k, v) \<in> set keymap \<and> \<not> key_literal_known k
              \<and> formatKeymap keymap = Inl (UnknownKey k))
      \<or> (\<exists>k. (k, ''become('') \<in> set keymap \<and> formatKeymap keymap = Inl (SliceBounds 7 6))
      \<or> (\<exists>k. (k, ''execute('') \<in> set keymap \<and> formatKeymap keymap = Inl (SliceBounds 8 7))
      \<or> (\<exists>m. formatKeymap keymap = Inr m)"
  proof (cases "formatKeymap keymap")
    case (Inl e)
    then have "formatKeymap_loop Map.empty keymap = Inl e"
      by (simp add: formatKeymap_def)
    from formatKeymap_loop_panic [OF this] Inl show ?thesis by auto
  next
    case (Inr m)
    then show ?thesis by blast
  qed
  ultimately show ?thesis by blast
qed

theorem formatKeymap_variants_equal_witness:
  "formatKeymap_part_000 [(''ctrl-e'', ''become(nvim a.json)''), (''F1'', ''exit'')]
     = formatKeymap [(''ctrl-e'', ''become(nvim a.json)''), (''F1'', ''exit'')]
   \<and> formatKeymap [(''ctrl-e'', ''become(nvim a.json)''), (''F1'', ''exit'')]
     = Inl (UnknownKey ''F1'')"
proof -
  have "formatKeymap [(''ctrl-e'', ''become(nvim a.json)''), (''F1'', ''exit'')]
          = Inl (UnknownKey ''F1'')"
    by (simp add: formatKeymap_def formatKeymap_action_def formatKeymap_key_def go_slice_def
          Let_def)
  with formatKeymap_variants_equal [of "[(''ctrl-e'', ''become(nvim a.json)''), (''F1'', ''exit'')]"]
  show ?thesis by simp
qed

subsection \<open>stopChild\<close>

text \<open>
  C8. When the child's exit has already been observed (\<^verbatim>\<open>childExitChan\<close> is \<^verbatim>\<open>nil\<close>),
  \<^verbatim>\<open>stopChild\<close> returns at once: the state is the one it was called in, so no signal was
  sent and nothing was logged, and it has consumed none of the timer or exit events, so
  it has not waited.
\<close>

theorem stopChild_after_exit_noop:
  assumes "childExitChan_nil s"
  shows "stopChild term_err evs s = Some (s, evs)"
  using assms by (simp add: stopChild_def)

theorem stopChild_after_exit_noop_witness:
  "childExitChan_nil (initial\<lparr>childExitChan_nil := True\<rparr>)
   \<and> stopChild False [Timeout False, ExitReceived] (initial\<lparr>childExitChan_nil := True\<rparr>)
       = Some (initial\<lparr>childExitChan_nil := True\<rparr>, [Timeout False, ExitReceived])"
proof -
  have h: "childExitChan_nil (initial\<lparr>childExitChan_nil := True\<rparr>)"
    by simp
  from stopChild_after_exit_noop [OF h, of False "[Timeout False, ExitReceived]"]
  show ?thesis using h by simp
qed

end
